theory Spec2Isabelle
  imports Main "HOL-Library.Multiset" "HOL-Library.Sublist"
begin

section \<open>Authorization gate (app/services/auth.py)\<close>

text \<open>
  Python strings are modelled as \<^typ>\<open>string\<close>, that is as text whose code points are
  below 256. On that range the regular-expression class \<^verbatim>\<open>\d\<close> is exactly the ASCII
  digits, and the characters removed by \<^verbatim>\<open>str.strip()\<close> are the twelve listed in
  \<open>is_space\<close>.
\<close>

definition is_digit :: "char \<Rightarrow> bool" where
  "is_digit c = (48 \<le> (of_char c :: nat) \<and> (of_char c :: nat) \<le> 57)"

definition is_space :: "char \<Rightarrow> bool" where
  "is_space c = ((of_char c :: nat) \<in> {9, 10, 11, 12, 13, 28, 29, 30, 31, 32, 133, 160})"

definition strip :: "string \<Rightarrow> string" where
  "strip s = rev (dropWhile is_space (rev (dropWhile is_space s)))"

definition startswith :: "string \<Rightarrow> string \<Rightarrow> bool" where
  "startswith s p = (take (length p) s = p)"

definition sub_non_digits :: "string \<Rightarrow> string" where
  "sub_non_digits s = filter is_digit s"

definition normalize_phone :: "string \<Rightarrow> string" where
  "normalize_phone phone =
     (if phone = [] then []
      else let p = strip phone in
        if startswith p ''+'' then ''+'' @ sub_non_digits (drop 1 p)
        else sub_non_digits p)"

record AuthService =
  allowed :: "string set"
  open_mode :: bool

definition AuthService_init :: "string list \<Rightarrow> AuthService" where
  "AuthService_init allowed_numbers =
     (let a = set (map normalize_phone (filter (\<lambda>n. n \<noteq> []) allowed_numbers))
      in \<lparr>allowed = a, open_mode = (card a = 0)\<rparr>)"

definition is_authorized :: "AuthService \<Rightarrow> string \<Rightarrow> bool" where
  "is_authorized self phone_number =
     (if open_mode self then True
      else normalize_phone phone_number \<in> allowed self)"



section \<open>Persisted schema (app/core/database.py)\<close>

text \<open>
  Timestamps are the ISO-8601 strings written by \<^verbatim>\<open>datetime.utcnow().isoformat()\<close>;
  SQLite compares them as text, which is chronological order, so an instant is modelled
  as a natural number. The \<^verbatim>\<open>status\<close> and \<^verbatim>\<open>role\<close> columns hold the strings
  admitted by the CHECK constraints of the schema.
\<close>

type_synonym datetime = nat

datatype status = Received | Pending | Sent | Failed

datatype role = System | User | Assistant

datatype error = IntegrityError | OperationalError | OverflowError | ProviderError

record conversation =
  c_id :: int
  c_phone_number :: string
  c_created_at :: datetime
  c_updated_at :: datetime

record message =
  m_id :: int
  m_conversation_id :: int
  m_role :: role
  m_content :: string
  m_timestamp :: datetime
  m_status :: status

record outbox_message =
  o_id :: int
  o_phone_number :: string
  o_content :: string
  o_created_at :: datetime
  o_status :: status
  o_sent_at :: "datetime option"

text \<open>
  A table is the list of its rows in insertion order. Each table has an AUTOINCREMENT
  key: the counter holds the largest row id handed out so far.
\<close>

record database =
  conversations :: "conversation list"
  conversations_seq :: int
  messages :: "message list"
  messages_seq :: int
  outbox :: "outbox_message list"
  outbox_seq :: int

definition empty_db :: database where
  "empty_db = \<lparr>conversations = [], conversations_seq = 0, messages = [], messages_seq = 0,
               outbox = [], outbox_seq = 0\<rparr>"

section \<open>Outbox queue (app/repositories/outbox.py)\<close>

definition enqueue :: "datetime \<Rightarrow> string \<Rightarrow> string \<Rightarrow> database \<Rightarrow> int \<times> database" where
  "enqueue now phone_number content db =
     (let lastrowid = outbox_seq db + 1;
          row = \<lparr>o_id = lastrowid, o_phone_number = phone_number, o_content = content,
                 o_created_at = now, o_status = Pending, o_sent_at = None\<rparr>
      in (lastrowid, db\<lparr>outbox := outbox db @ [row], outbox_seq := lastrowid\<rparr>))"

text \<open>
  The status argument of \<^verbatim>\<open>acknowledge\<close> is typed \<^verbatim>\<open>Literal["sent", "failed"]\<close>
  and validated as such by the request model of the route.
\<close>

datatype ack_status = AckSent | AckFailed

fun status_of_ack :: "ack_status \<Rightarrow> status" where
  "status_of_ack AckSent = Sent"
| "status_of_ack AckFailed = Failed"

definition ack_row :: "int \<Rightarrow> outbox_message \<Rightarrow> bool" where
  "ack_row message_id r = (o_id r = message_id \<and> o_status r = Pending)"

definition acknowledge ::
  "datetime \<Rightarrow> int \<Rightarrow> ack_status \<Rightarrow> database \<Rightarrow> bool \<times> database" where
  "acknowledge utcnow message_id st db =
     (let now = (if st = AckSent then Some utcnow else None);
          rowcount = length (filter (ack_row message_id) (outbox db));
          rows = map (\<lambda>r. if ack_row message_id r
                            then r\<lparr>o_status := status_of_ack st, o_sent_at := now\<rparr>
                            else r) (outbox db)
      in (rowcount > 0, db\<lparr>outbox := rows\<rparr>))"

text \<open>A run of acknowledgments, each with the clock reading at its call.\<close>

fun acknowledge_all ::
  "(datetime \<times> int \<times> ack_status) list \<Rightarrow> database \<Rightarrow> bool list \<times> database" where
  "acknowledge_all [] db = ([], db)"
| "acknowledge_all ((now, message_id, st) # rest) db =
     (case acknowledge now message_id st db of
        (applied, db') \<Rightarrow>
          (case acknowledge_all rest db' of (res, db'') \<Rightarrow> (applied # res, db'')))"

section \<open>History store (app/repositories/message.py)\<close>

text \<open>
  A row of \<^verbatim>\<open>messages\<close> must reference an existing conversation: connections are
  opened with \<^verbatim>\<open>PRAGMA foreign_keys = ON\<close>.
\<close>

definition create ::
  "datetime \<Rightarrow> int \<Rightarrow> role \<Rightarrow> string \<Rightarrow> status \<Rightarrow> database \<Rightarrow> error + (message \<times> database)" where
  "create now conversation_id r content st db =
     (if conversation_id \<notin> c_id ` set (conversations db) then Inl IntegrityError
      else
        let lastrowid = messages_seq db + 1;
            row = \<lparr>m_id = lastrowid, m_conversation_id = conversation_id, m_role = r,
                   m_content = content, m_timestamp = now, m_status = st\<rparr>
        in Inr (row, db\<lparr>messages := messages db @ [row], messages_seq := lastrowid\<rparr>))"

text \<open>
  \<^verbatim>\<open>LIMIT ?\<close> with a negative bound returns every row (SQLite puts no upper bound on
  the result then). \<^verbatim>\<open>ORDER BY timestamp DESC\<close> is the ascending sort reversed; SQL
  leaves the order of rows with equal timestamps open.
\<close>

definition sql_limit :: "int \<Rightarrow> 'a list \<Rightarrow> 'a list" where
  "sql_limit n rows = (if n < 0 then rows else take (nat n) rows)"

definition order_by_timestamp_desc :: "message list \<Rightarrow> message list" where
  "order_by_timestamp_desc rows = rev (sort_key m_timestamp rows)"

definition conversation_messages :: "int \<Rightarrow> database \<Rightarrow> message list" where
  "conversation_messages conversation_id db =
     filter (\<lambda>m. m_conversation_id m = conversation_id) (messages db)"

text \<open>
  Both parameters of the query are Python integers bound to SQLite integers, which are
  64-bit signed: the \<^verbatim>\<open>sqlite3\<close> binding raises \<^verbatim>\<open>OverflowError\<close> for a value
  outside that range, before the query runs.
\<close>

definition int64 :: "int \<Rightarrow> bool" where
  "int64 n = (- (2 ^ 63) \<le> n \<and> n < 2 ^ 63)"

definition get_history :: "int \<Rightarrow> int \<Rightarrow> database \<Rightarrow> error + message list" where
  "get_history conversation_id limit db =
     (if int64 conversation_id \<and> int64 limit
      then
        let rows = sql_limit limit
                     (order_by_timestamp_desc (conversation_messages conversation_id db))
        in Inr (rev rows)
      else Inl OverflowError)"

section \<open>AI responder adapter (app/providers/openai_provider.py)\<close>

type_synonym api_message = "role \<times> string"

definition FALLBACK_MESSAGE :: string where
  "FALLBACK_MESSAGE = ''I'm having trouble right now. Please try again in a moment.''"

text \<open>
  What one call of \<^verbatim>\<open>chat.completions.create\<close> does: it returns, and the content of
  the first choice is a string or \<^verbatim>\<open>None\<close>, or the attempt raises. The handlers
  distinguish \<^verbatim>\<open>RateLimitError\<close>, any other \<^verbatim>\<open>APIError\<close>, and any other
  \<^verbatim>\<open>Exception\<close> (an empty list of choices raises one of these).
\<close>

datatype completion =
    Completion "string option"
  | Raise_RateLimitError
  | Raise_APIError
  | Raise_Exception

text \<open>
  What a run of the adapter did besides returning: the attempts at which the provider
  was called, and the seconds slept between attempts.
\<close>

record trace =
  called :: "nat list"
  slept :: "nat list"

fun retry_loop :: "int \<Rightarrow> (nat \<Rightarrow> completion) \<Rightarrow> nat list \<Rightarrow> trace \<Rightarrow> string \<times> trace" where
  "retry_loop max_retries client [] tr = (FALLBACK_MESSAGE, tr)"
| "retry_loop max_retries client (attempt # rest) tr =
     (case client attempt of
        Completion content \<Rightarrow>
          (case content of
             None \<Rightarrow> (FALLBACK_MESSAGE, tr\<lparr>called := called tr @ [attempt]\<rparr>)
           | Some c \<Rightarrow> (if c = [] then FALLBACK_MESSAGE else c,
                        tr\<lparr>called := called tr @ [attempt]\<rparr>))
      | Raise_RateLimitError \<Rightarrow>
          retry_loop max_retries client rest
            (tr\<lparr>called := called tr @ [attempt],
                slept := slept tr @ [min (2 ^ (attempt + 2)) 30]\<rparr>)
      | Raise_APIError \<Rightarrow>
          (if int attempt < max_retries - 1
           then retry_loop max_retries client rest
                  (tr\<lparr>called := called tr @ [attempt], slept := slept tr @ [2 ^ attempt]\<rparr>)
           else retry_loop max_retries client rest (tr\<lparr>called := called tr @ [attempt]\<rparr>))
      | Raise_Exception \<Rightarrow> (FALLBACK_MESSAGE, tr\<lparr>called := called tr @ [attempt]\<rparr>))"

definition generate_response ::
  "int \<Rightarrow> (api_message list \<Rightarrow> nat \<Rightarrow> completion) \<Rightarrow> api_message list \<Rightarrow> string
     \<Rightarrow> string \<times> trace" where
  "generate_response max_retries client msgs system_prompt =
     (let api_messages = (System, system_prompt) # msgs
      in retry_loop max_retries (client api_messages) [0..<nat max_retries]
           \<lparr>called = [], slept = []\<rparr>)"


text \<open>The error classes after which the loop goes on to the next attempt.\<close>

fun retryable :: "completion \<Rightarrow> bool" where
  "retryable Raise_RateLimitError = True"
| "retryable Raise_APIError = True"
| "retryable _ = False"

section \<open>Conversation store (app/repositories/conversation.py)\<close>

definition find_by_phone :: "string \<Rightarrow> database \<Rightarrow> conversation option" where
  "find_by_phone phone_number db =
     (case filter (\<lambda>c. c_phone_number c = phone_number) (conversations db) of
        [] \<Rightarrow> None
      | row # _ \<Rightarrow> Some row)"

text \<open>
  The INSERT of \<^verbatim>\<open>find_or_create\<close>. The column \<^verbatim>\<open>phone_number\<close> is UNIQUE: an
  insert of a number that a row already holds raises \<^verbatim>\<open>sqlite3.IntegrityError\<close>.
\<close>

definition insert_conversation ::
  "datetime \<Rightarrow> string \<Rightarrow> database \<Rightarrow> error + (int \<times> database)" where
  "insert_conversation now phone_number db =
     (if phone_number \<in> c_phone_number ` set (conversations db) then Inl IntegrityError
      else
        let lastrowid = conversations_seq db + 1;
            row = \<lparr>c_id = lastrowid, c_phone_number = phone_number, c_created_at = now,
                   c_updated_at = now\<rparr>
        in Inr (lastrowid, db\<lparr>conversations := conversations db @ [row],
                              conversations_seq := lastrowid\<rparr>))"

definition find_or_create ::
  "datetime \<Rightarrow> string \<Rightarrow> database \<Rightarrow> error + (conversation \<times> database)" where
  "find_or_create now phone_number db =
     (case find_by_phone phone_number db of
        Some existing \<Rightarrow> Inr (existing, db)
      | None \<Rightarrow>
          (case insert_conversation now phone_number db of
             Inl e \<Rightarrow> Inl e
           | Inr (lastrowid, db') \<Rightarrow>
               Inr (\<lparr>c_id = lastrowid, c_phone_number = phone_number, c_created_at = now,
                     c_updated_at = now\<rparr>, db')))"

definition touch :: "datetime \<Rightarrow> int \<Rightarrow> database \<Rightarrow> database" where
  "touch now conversation_id db =
     db\<lparr>conversations :=
          map (\<lambda>c. if c_id c = conversation_id then c\<lparr>c_updated_at := now\<rparr> else c)
            (conversations db)\<rparr>"

text \<open>
  \<^verbatim>\<open>find_or_create\<close> is a coroutine: it is suspended at
  \<^verbatim>\<open>await self.find_by_phone(...)\<close> and again at the \<^verbatim>\<open>await\<close> of the INSERT,
  and other requests, each on a connection of its own to the same database file, run in
  between. A call is at its start, or has found no row and is about to insert, or has
  returned a conversation, or has raised. \<open>resume\<close> runs a call up to its next
  suspension point; a schedule names which call is resumed next, and the clock reading
  it sees.
\<close>

datatype call =
    Start string
  | Inserting string
  | Returned conversation
  | Raised error

fun resume :: "datetime \<Rightarrow> call \<Rightarrow> database \<Rightarrow> call \<times> database" where
  "resume now (Start phone_number) db =
     (case find_by_phone phone_number db of
        Some existing \<Rightarrow> (Returned existing, db)
      | None \<Rightarrow> (Inserting phone_number, db))"
| "resume now (Inserting phone_number) db =
     (case insert_conversation now phone_number db of
        Inl e \<Rightarrow> (Raised e, db)
      | Inr (lastrowid, db') \<Rightarrow>
          (Returned \<lparr>c_id = lastrowid, c_phone_number = phone_number, c_created_at = now,
                     c_updated_at = now\<rparr>, db'))"
| "resume now (Returned c) db = (Returned c, db)"
| "resume now (Raised e) db = (Raised e, db)"

fun run_schedule ::
  "(nat \<times> datetime) list \<Rightarrow> call list \<Rightarrow> database \<Rightarrow> call list \<times> database" where
  "run_schedule [] calls db = (calls, db)"
| "run_schedule ((i, now) # rest) calls db =
     (if i < length calls
      then (case resume now (calls ! i) db of
              (c, db') \<Rightarrow> run_schedule rest (calls[i := c]) db')
      else run_schedule rest calls db)"

section \<open>Message processor (app/services/sms.py)\<close>

text \<open>
  The service is built from its collaborators. Each collaborator call either returns or
  raises, and may change the world it works on (the database, the provider's state).
\<close>

record 'w SMSService =
  auth :: AuthService
  conversations_find_or_create :: "string \<Rightarrow> 'w \<Rightarrow> (error + conversation) \<times> 'w"
  conversations_touch :: "int \<Rightarrow> 'w \<Rightarrow> (error + unit) \<times> 'w"
  messages_create :: "int \<Rightarrow> role \<Rightarrow> string \<Rightarrow> status \<Rightarrow> 'w \<Rightarrow> (error + message) \<times> 'w"
  messages_get_history :: "int \<Rightarrow> int \<Rightarrow> 'w \<Rightarrow> (error + message list) \<times> 'w"
  outbox_enqueue :: "string \<Rightarrow> string \<Rightarrow> 'w \<Rightarrow> (error + int) \<times> 'w"
  ai_generate_response :: "api_message list \<Rightarrow> string \<Rightarrow> 'w \<Rightarrow> (error + string) \<times> 'w"
  system_prompt :: string
  max_context :: int

text \<open>The records that \<^verbatim>\<open>process_incoming\<close> writes to its logger.\<close>

datatype log_record =
    Info_processing string int
  | Info_generating int
  | Info_processed string
  | Error_processing string error

text \<open>The body of the \<^verbatim>\<open>try\<close> statement: the first collaborator that raises ends it.\<close>

definition process_incoming_try ::
  "'w SMSService \<Rightarrow> string \<Rightarrow> string \<Rightarrow> 'w \<Rightarrow> (error + bool) \<times> log_record list \<times> 'w" where
  "process_incoming_try self phone_number content w =
     (case conversations_find_or_create self phone_number w of
        (Inl e, w1) \<Rightarrow> (Inl e, [], w1)
      | (Inr conversation, w1) \<Rightarrow>
     (case messages_create self (c_id conversation) User content Received w1 of
        (Inl e, w2) \<Rightarrow> (Inl e, [Info_processing phone_number (c_id conversation)], w2)
      | (Inr _, w2) \<Rightarrow>
     (case messages_get_history self (c_id conversation) (max_context self) w2 of
        (Inl e, w3) \<Rightarrow> (Inl e, [Info_processing phone_number (c_id conversation)], w3)
      | (Inr history, w3) \<Rightarrow>
     (case ai_generate_response self (map (\<lambda>msg. (m_role msg, m_content msg)) history)
             (system_prompt self) w3 of
        (Inl e, w4) \<Rightarrow>
          (Inl e, [Info_processing phone_number (c_id conversation),
                   Info_generating (c_id conversation)], w4)
      | (Inr response, w4) \<Rightarrow>
     (case messages_create self (c_id conversation) Assistant response Pending w4 of
        (Inl e, w5) \<Rightarrow>
          (Inl e, [Info_processing phone_number (c_id conversation),
                   Info_generating (c_id conversation)], w5)
      | (Inr _, w5) \<Rightarrow>
     (case outbox_enqueue self phone_number response w5 of
        (Inl e, w6) \<Rightarrow>
          (Inl e, [Info_processing phone_number (c_id conversation),
                   Info_generating (c_id conversation)], w6)
      | (Inr _, w6) \<Rightarrow>
     (case conversations_touch self (c_id conversation) w6 of
        (Inl e, w7) \<Rightarrow>
          (Inl e, [Info_processing phone_number (c_id conversation),
                   Info_generating (c_id conversation)], w7)
      | (Inr _, w7) \<Rightarrow>
          (Inr True, [Info_processing phone_number (c_id conversation),
                      Info_generating (c_id conversation),
                      Info_processed phone_number], w7))))))))"

definition process_incoming ::
  "'w SMSService \<Rightarrow> string \<Rightarrow> string \<Rightarrow> datetime option \<Rightarrow> 'w
     \<Rightarrow> bool \<times> log_record list \<times> 'w" where
  "process_incoming self phone_number content timestamp w =
     (if \<not> is_authorized (auth self) phone_number then (False, [], w)
      else
        (case process_incoming_try self phone_number content w of
           (Inr r, logs, w') \<Rightarrow> (r, logs, w')
         | (Inl e, logs, w') \<Rightarrow> (False, logs @ [Error_processing phone_number e], w')))"

text \<open>
  The service as the application wires it (app/dependencies.py): the three repositories
  on one SQLite database and an AI provider. The world holds the database, the wall
  clock (the reading that the n-th repository operation gets from
  \<^verbatim>\<open>datetime.utcnow()\<close>) and the requests the provider has received.
\<close>

record world =
  w_db :: database
  w_clock :: "nat \<Rightarrow> datetime"
  w_operations :: nat
  w_requests :: "(api_message list \<times> string) list"

definition utcnow :: "world \<Rightarrow> datetime" where
  "utcnow w = w_clock w (w_operations w)"

definition repo_find_or_create :: "string \<Rightarrow> world \<Rightarrow> (error + conversation) \<times> world" where
  "repo_find_or_create phone_number w =
     (case find_or_create (utcnow w) phone_number (w_db w) of
        Inl e \<Rightarrow> (Inl e, w\<lparr>w_operations := w_operations w + 1\<rparr>)
      | Inr (c, d) \<Rightarrow> (Inr c, w\<lparr>w_db := d, w_operations := w_operations w + 1\<rparr>))"

definition repo_touch :: "int \<Rightarrow> world \<Rightarrow> (error + unit) \<times> world" where
  "repo_touch conversation_id w =
     (Inr (), w\<lparr>w_db := touch (utcnow w) conversation_id (w_db w),
                 w_operations := w_operations w + 1\<rparr>)"

definition repo_create ::
  "int \<Rightarrow> role \<Rightarrow> string \<Rightarrow> status \<Rightarrow> world \<Rightarrow> (error + message) \<times> world" where
  "repo_create conversation_id r content st w =
     (case create (utcnow w) conversation_id r content st (w_db w) of
        Inl e \<Rightarrow> (Inl e, w\<lparr>w_operations := w_operations w + 1\<rparr>)
      | Inr (m, d) \<Rightarrow> (Inr m, w\<lparr>w_db := d, w_operations := w_operations w + 1\<rparr>))"

definition repo_get_history :: "int \<Rightarrow> int \<Rightarrow> world \<Rightarrow> (error + message list) \<times> world" where
  "repo_get_history conversation_id limit w =
     (get_history conversation_id limit (w_db w), w\<lparr>w_operations := w_operations w + 1\<rparr>)"

definition repo_enqueue :: "string \<Rightarrow> string \<Rightarrow> world \<Rightarrow> (error + int) \<times> world" where
  "repo_enqueue phone_number content w =
     (case enqueue (utcnow w) phone_number content (w_db w) of
        (lastrowid, d) \<Rightarrow> (Inr lastrowid, w\<lparr>w_db := d, w_operations := w_operations w + 1\<rparr>))"

definition provider_generate_response ::
  "(api_message list \<Rightarrow> string \<Rightarrow> error + string) \<Rightarrow> api_message list \<Rightarrow> string \<Rightarrow> world
     \<Rightarrow> (error + string) \<times> world" where
  "provider_generate_response ai msgs prompt w =
     (ai msgs prompt, w\<lparr>w_requests := w_requests w @ [(msgs, prompt)]\<rparr>)"

definition get_sms_service ::
  "AuthService \<Rightarrow> (api_message list \<Rightarrow> string \<Rightarrow> error + string) \<Rightarrow> string \<Rightarrow> int
     \<Rightarrow> world SMSService" where
  "get_sms_service auth_service ai prompt max_context_messages =
     \<lparr>auth = auth_service,
      conversations_find_or_create = repo_find_or_create,
      conversations_touch = repo_touch,
      messages_create = repo_create,
      messages_get_history = repo_get_history,
      outbox_enqueue = repo_enqueue,
      ai_generate_response = provider_generate_response ai,
      system_prompt = prompt,
      max_context = max_context_messages\<rparr>"

text \<open>The OpenAI adapter as the provider of the service: it never raises.\<close>

definition openai_provider ::
  "int \<Rightarrow> (api_message list \<Rightarrow> nat \<Rightarrow> completion) \<Rightarrow> api_message list \<Rightarrow> string
     \<Rightarrow> error + string" where
  "openai_provider max_retries client msgs prompt =
     Inr (fst (generate_response max_retries client msgs prompt))"

section \<open>Inbound route (app/routes/sms.py)\<close>

record settings =
  sms_api_key :: "string option"

record IncomingSMSRequest =
  req_from_number :: string
  req_to :: "string option"
  req_content :: string
  req_timestamp :: "datetime option"
  req_id :: "string option"

text \<open>What the client gets: the HTTP status and the body \<^verbatim>\<open>{ok: bool}\<close>.\<close>

record response =
  status_code :: nat
  ok :: bool

definition OkResponse :: "bool \<Rightarrow> response" where
  "OkResponse b = \<lparr>status_code = 200, ok = b\<rparr>"

definition truthy :: "string option \<Rightarrow> bool" where
  "truthy v = (case v of None \<Rightarrow> False | Some s \<Rightarrow> s \<noteq> [])"

definition receive_sms ::
  "settings \<Rightarrow> 'w SMSService \<Rightarrow> IncomingSMSRequest \<Rightarrow> string option \<Rightarrow> 'w \<Rightarrow> response \<times> 'w" where
  "receive_sms config sms_service request x_api_key w =
     (if truthy (sms_api_key config) \<and> x_api_key \<noteq> sms_api_key config
      then (OkResponse False, w)
      else
        (case process_incoming sms_service (req_from_number request) (req_content request)
                (req_timestamp request) w of
           (_, _, w') \<Rightarrow> (OkResponse True, w')))"

text \<open>
  Inputs for evaluating the pipeline: a world with an empty database, a provider that
  always answers with a given reply, and a provider that always raises.
\<close>

definition fresh_world :: world where
  "fresh_world =
     \<lparr>w_db = empty_db, w_clock = (\<lambda>n. 100 + n), w_operations = 0, w_requests = []\<rparr>"

definition stub_provider :: "string \<Rightarrow> api_message list \<Rightarrow> string \<Rightarrow> error + string" where
  "stub_provider reply msgs prompt = Inr reply"

definition failing_provider :: "api_message list \<Rightarrow> string \<Rightarrow> error + string" where
  "failing_provider msgs prompt = Inl ProviderError"

text \<open>A conversation with three messages, used to evaluate the history query.\<close>

definition history_example :: database where
  "history_example =
     \<lparr>conversations = [\<lparr>c_id = 1, c_phone_number = ''+15551234567'', c_created_at = 1,
                        c_updated_at = 1\<rparr>],
      conversations_seq = 1,
      messages = [\<lparr>m_id = 1, m_conversation_id = 1, m_role = User, m_content = ''a'',
                   m_timestamp = 1, m_status = Received\<rparr>,
                  \<lparr>m_id = 2, m_conversation_id = 1, m_role = Assistant, m_content = ''b'',
                   m_timestamp = 2, m_status = Pending\<rparr>,
                  \<lparr>m_id = 3, m_conversation_id = 1, m_role = User, m_content = ''c'',
                   m_timestamp = 3, m_status = Received\<rparr>],
      messages_seq = 3, outbox = [], outbox_seq = 0\<rparr>"

section \<open>Properties of the authorization gate\<close>

lemma digit_not_space: "is_digit c \<Longrightarrow> \<not> is_space c"
  by (auto simp: is_digit_def is_space_def)

lemma plus_not_space: "\<not> is_space CHR ''+''"
  by (simp add: is_space_def)

lemma plus_not_digit: "\<not> is_digit CHR ''+''"
  by (simp add: is_digit_def)

lemma filter_digit_dropWhile_space:
  "filter is_digit (dropWhile is_space s) = filter is_digit s"
  by (induction s) (auto dest: digit_not_space)

lemma filter_digit_strip: "filter is_digit (strip s) = filter is_digit s"
proof -
  have "filter is_digit (strip s) = rev (filter is_digit (dropWhile is_space (rev (dropWhile is_space s))))"
    by (simp add: strip_def rev_filter)
  also have "\<dots> = rev (filter is_digit (rev (dropWhile is_space s)))"
    by (simp only: filter_digit_dropWhile_space)
  also have "\<dots> = filter is_digit (dropWhile is_space s)"
    by (simp add: rev_filter)
  finally show ?thesis by (simp add: filter_digit_dropWhile_space)
qed

lemma dropWhile_no_space: "\<forall>c\<in>set s. \<not> is_space c \<Longrightarrow> dropWhile is_space s = s"
  by (cases s) auto

lemma strip_id: "\<forall>c\<in>set s. \<not> is_space c \<Longrightarrow> strip s = s"
  by (simp add: strip_def dropWhile_no_space)

lemma normalize_phone_char:
  "normalize_phone p =
     (if startswith (strip p) ''+'' then CHR ''+'' # filter is_digit p else filter is_digit p)"
proof (cases "startswith (strip p) ''+''")
  case True
  then obtain r where r: "strip p = CHR ''+'' # r"
    by (cases "strip p") (auto simp: startswith_def)
  then have ne: "p \<noteq> []" by (auto simp: strip_def)
  have "filter is_digit r = filter is_digit (strip p)"
    using r plus_not_digit by simp
  then have "filter is_digit r = filter is_digit p" by (simp add: filter_digit_strip)
  with True r ne show ?thesis
    by (simp add: normalize_phone_def sub_non_digits_def Let_def)
next
  case False
  have "filter is_digit (strip p) = filter is_digit p" by (rule filter_digit_strip)
  with False show ?thesis
    by (simp add: normalize_phone_def sub_non_digits_def Let_def)
qed

lemma normalize_phone_idem: "normalize_phone (normalize_phone s) = normalize_phone s"
proof (cases "startswith (strip s) ''+''")
  case True
  let ?r = "CHR ''+'' # filter is_digit s"
  have n: "normalize_phone s = ?r" using True by (simp add: normalize_phone_char)
  have "\<forall>c\<in>set ?r. \<not> is_space c"
    using plus_not_space digit_not_space by auto
  then have "strip ?r = ?r" by (rule strip_id)
  then have "normalize_phone ?r = ?r"
    using plus_not_digit by (simp add: normalize_phone_char startswith_def)
  with n show ?thesis by simp
next
  case False
  let ?r = "filter is_digit s"
  have n: "normalize_phone s = ?r" using False by (simp add: normalize_phone_char)
  have "\<forall>c\<in>set ?r. \<not> is_space c"
    using digit_not_space by auto
  then have s: "strip ?r = ?r" by (rule strip_id)
  have "\<not> startswith ?r ''+''"
    using plus_not_digit by (cases ?r) (auto simp: startswith_def dest: filter_eq_ConsD)
  with s have "normalize_phone ?r = ?r"
    by (simp add: normalize_phone_char)
  with n show ?thesis by simp
qed


text \<open>
  C9 (as amended). Entries of the configured list that are the empty string are dropped
  when the service is built. \<^verbatim>\<open>is_authorized\<close> returns true for every number when
  the list has no other entry (open mode); otherwise it returns true exactly when the
  normal form of the number equals the normal form of a configured entry that is not the
  empty string. The normal form
  keeps the digits of the number in order, and puts a single \<open>+\<close> in front when the
  number, with surrounding whitespace trimmed, starts with \<open>+\<close>.
\<close>

theorem is_authorized_allowlist:
  "is_authorized (AuthService_init ns) p =
     ((\<forall>n\<in>set ns. n = []) \<or>
      (\<exists>n\<in>set ns. n \<noteq> [] \<and> normalize_phone p = normalize_phone n)) \<and>
   normalize_phone p =
     (if startswith (strip p) ''+'' then CHR ''+'' # filter is_digit p
      else filter is_digit p)"
proof
  let ?a = "set (map normalize_phone (filter (\<lambda>n. n \<noteq> []) ns))"
  have e: "(card ?a = 0) = (\<forall>n\<in>set ns. n = [])"
    by (auto simp: filter_empty_conv)
  have m: "(normalize_phone p \<in> ?a) =
      (\<exists>n\<in>set ns. n \<noteq> [] \<and> normalize_phone p = normalize_phone n)"
    by auto
  show "is_authorized (AuthService_init ns) p =
     ((\<forall>n\<in>set ns. n = []) \<or>
      (\<exists>n\<in>set ns. n \<noteq> [] \<and> normalize_phone p = normalize_phone n))"
  proof -
    have "is_authorized (AuthService_init ns) p = (card ?a = 0 \<or> normalize_phone p \<in> ?a)"
      by (auto simp: is_authorized_def AuthService_init_def Let_def)
    then show ?thesis unfolding e m .
  qed
  show "normalize_phone p =
     (if startswith (strip p) ''+'' then CHR ''+'' # filter is_digit p
      else filter is_digit p)"
    by (rule normalize_phone_char)
qed

theorem is_authorized_allowlist_witness:
  "is_authorized (AuthService_init [''+15551234567'']) ''+1 (555) 123-4567'' \<and>
   normalize_phone ''+1 (555) 123-4567'' = ''+15551234567'' \<and>
   \<not> is_authorized (AuthService_init [''+15551234567'']) ''15551234567'' \<and>
   is_authorized (AuthService_init []) ''15551234567''"
  using is_authorized_allowlist [of "[''+15551234567'']" "''+1 (555) 123-4567''"]
    is_authorized_allowlist [of "[''+15551234567'']" "''15551234567''"]
    is_authorized_allowlist [of "[]" "''15551234567''"]
  by (simp add: normalize_phone_def strip_def startswith_def sub_non_digits_def
      is_digit_def is_space_def)

text \<open>
  A list holding only the empty string is not empty, yet the service is in open mode and
  authorises a number whose normal form is not among the normalised entries.
\<close>

theorem is_authorized_blank_entries:
  "[''''] \<noteq> ([] :: string list) \<and>
   is_authorized (AuthService_init ['''']) ''+15551111111'' \<and>
   normalize_phone ''+15551111111'' \<notin> set (map normalize_phone [''''])"
  by (simp add: is_authorized_def AuthService_init_def normalize_phone_def strip_def
      startswith_def sub_non_digits_def is_digit_def is_space_def)

section \<open>Properties of the outbox queue\<close>

lemma status_of_ack_not_Pending: "status_of_ack st \<noteq> Pending"
  by (cases st) simp_all

lemma acknowledge_applied_iff:
  "fst (acknowledge t i st db) = (\<exists>r\<in>set (outbox db). o_id r = i \<and> o_status r = Pending)"
  by (simp add: acknowledge_def Let_def ack_row_def filter_empty_conv)

lemma acknowledge_length:
  "length (outbox (snd (acknowledge t i st db))) = length (outbox db)"
  by (simp add: acknowledge_def Let_def)

lemma acknowledge_nth:
  "k < length (outbox db) \<Longrightarrow>
   outbox (snd (acknowledge t i st db)) ! k =
     (if ack_row i (outbox db ! k)
      then (outbox db ! k)\<lparr>o_status := status_of_ack st,
                             o_sent_at := (if st = AckSent then Some t else None)\<rparr>
      else outbox db ! k)"
  by (simp add: acknowledge_def Let_def)

lemma acknowledge_no_pending_left:
  "\<not> (\<exists>r\<in>set (outbox (snd (acknowledge t i st db))). ack_row i r)"
proof
  assume "\<exists>r\<in>set (outbox (snd (acknowledge t i st db))). ack_row i r"
  then obtain r where r: "r \<in> set (outbox (snd (acknowledge t i st db)))" and a: "ack_row i r"
    by blast
  from r obtain k where k: "k < length (outbox (snd (acknowledge t i st db)))"
    and rk: "r = outbox (snd (acknowledge t i st db)) ! k"
    by (metis in_set_conv_nth)
  from k have k': "k < length (outbox db)" by (simp only: acknowledge_length)
  show False
  proof (cases "ack_row i (outbox db ! k)")
    case True
    with k' rk have "o_status r = status_of_ack st" by (simp add: acknowledge_nth)
    with a show False by (simp add: ack_row_def status_of_ack_not_Pending)
  next
    case False
    with k' rk have "r = outbox db ! k" by (simp add: acknowledge_nth)
    with a False show False by simp
  qed
qed

lemma acknowledge_noop:
  assumes "\<not> (\<exists>r\<in>set (outbox db). ack_row i r)"
  shows "acknowledge t i st db = (False, db)"
proof -
  have f: "filter (ack_row i) (outbox db) = []" using assms by (simp add: filter_empty_conv)
  have "\<And>r. r \<in> set (outbox db) \<Longrightarrow>
      (if ack_row i r
       then r\<lparr>o_status := status_of_ack st, o_sent_at := (if st = AckSent then Some t else None)\<rparr>
       else r) = r"
    using assms by simp
  then have m: "map (\<lambda>r. if ack_row i r
                            then r\<lparr>o_status := status_of_ack st, o_sent_at := (if st = AckSent then Some t else None)\<rparr>
                            else r) (outbox db) = outbox db"
    by (rule map_idI)
  show ?thesis unfolding acknowledge_def Let_def f m by simp
qed

lemma acknowledge_twice:
  "acknowledge t2 i st2 (snd (acknowledge t1 i st1 db)) = (False, snd (acknowledge t1 i st1 db))"
  by (rule acknowledge_noop) (rule acknowledge_no_pending_left)

lemma snd_acknowledge_all_Cons:
  "snd (acknowledge_all ((t, i, st) # acks) db) =
   snd (acknowledge_all acks (snd (acknowledge t i st db)))"
  by (simp split: prod.splits)

lemma acknowledge_all_length:
  "length (outbox (snd (acknowledge_all acks db))) = length (outbox db)"
proof (induction acks arbitrary: db)
  case Nil show ?case by simp
next
  case (Cons a acks)
  obtain t i st where a: "a = (t, i, st)" by (cases a)
  show ?case unfolding a snd_acknowledge_all_Cons
    by (simp only: Cons.IH acknowledge_length)
qed

lemma acknowledge_all_frozen:
  "k < length (outbox db) \<Longrightarrow> o_status (outbox db ! k) \<noteq> Pending \<Longrightarrow>
   outbox (snd (acknowledge_all acks db)) ! k = outbox db ! k"
proof (induction acks arbitrary: db)
  case Nil show ?case by simp
next
  case (Cons a acks)
  obtain t i st where a: "a = (t, i, st)" by (cases a)
  let ?d = "snd (acknowledge t i st db)"
  have same: "outbox ?d ! k = outbox db ! k"
    using Cons.prems by (simp add: acknowledge_nth ack_row_def)
  have "outbox (snd (acknowledge_all acks ?d)) ! k = outbox ?d ! k"
  proof (rule Cons.IH)
    show "k < length (outbox ?d)" using Cons.prems(1) by (simp only: acknowledge_length)
    show "o_status (outbox ?d ! k) \<noteq> Pending" unfolding same by (rule Cons.prems(2))
  qed
  then have "outbox (snd (acknowledge_all acks ?d)) ! k = outbox db ! k"
    by (simp only: same)
  then show ?case unfolding a snd_acknowledge_all_Cons .
qed

lemma acknowledge_all_status:
  "k < length (outbox db) \<Longrightarrow>
   o_status (outbox (snd (acknowledge_all acks db)) ! k) \<noteq> o_status (outbox db ! k) \<Longrightarrow>
   o_status (outbox db ! k) = Pending \<and>
   o_status (outbox (snd (acknowledge_all acks db)) ! k) \<in> {Sent, Failed}"
proof (induction acks arbitrary: db)
  case Nil then show ?case by simp
next
  case (Cons a acks)
  obtain t i st where a: "a = (t, i, st)" by (cases a)
  let ?d = "snd (acknowledge t i st db)"
  have fin: "snd (acknowledge_all (a # acks) db) = snd (acknowledge_all acks ?d)"
    unfolding a by (rule snd_acknowledge_all_Cons)
  have len: "k < length (outbox ?d)" using Cons.prems(1) by (simp only: acknowledge_length)
  have p: "o_status (outbox db ! k) = Pending"
  proof (rule ccontr)
    assume "o_status (outbox db ! k) \<noteq> Pending"
    with Cons.prems(1) have "outbox (snd (acknowledge_all (a # acks) db)) ! k = outbox db ! k"
      by (rule acknowledge_all_frozen)
    with Cons.prems(2) show False by simp
  qed
  show ?case
  proof (cases "ack_row i (outbox db ! k)")
    case True
    then have s: "o_status (outbox ?d ! k) = status_of_ack st"
      using Cons.prems(1) by (simp add: acknowledge_nth)
    then have "o_status (outbox ?d ! k) \<noteq> Pending" by (simp add: status_of_ack_not_Pending)
    with len have "outbox (snd (acknowledge_all acks ?d)) ! k = outbox ?d ! k"
      by (rule acknowledge_all_frozen)
    with s p show ?thesis unfolding fin by (cases st) simp_all
  next
    case False
    then have same: "outbox ?d ! k = outbox db ! k"
      using Cons.prems(1) by (simp add: acknowledge_nth)
    have "o_status (outbox (snd (acknowledge_all acks ?d)) ! k) \<noteq> o_status (outbox ?d ! k)"
      using Cons.prems(2) unfolding fin same .
    with len have "o_status (outbox ?d ! k) = Pending \<and>
        o_status (outbox (snd (acknowledge_all acks ?d)) ! k) \<in> {Sent, Failed}"
      by (rule Cons.IH)
    then show ?thesis unfolding fin same by simp
  qed
qed

lemma acknowledge_all_append:
  "snd (acknowledge_all (xs @ ys) db) = snd (acknowledge_all ys (snd (acknowledge_all xs db)))"
proof (induction xs arbitrary: db)
  case Nil show ?case by simp
next
  case (Cons a xs)
  obtain t i st where a: "a = (t, i, st)" by (cases a)
  show ?case unfolding a append_Cons snd_acknowledge_all_Cons by (rule Cons.IH)
qed

text \<open>
  C1. \<^verbatim>\<open>acknowledge\<close> with status sent or failed returns true exactly when an entry
  with the given id exists and is pending, and then rewrites that entry's status and
  sent time (every other row is left as it is). A second acknowledgment of the same id,
  with the same or the other terminal status, returns false and leaves the whole table
  as it is. Over any run of acknowledgments an entry's status changes only from pending
  to sent or failed, and once an entry is no longer pending no later acknowledgment
  changes it, so its status changes at most once.
\<close>

theorem acknowledge_pending_once:
  "fst (acknowledge t i st db) =
     (\<exists>r\<in>set (outbox db). o_id r = i \<and> o_status r = Pending) \<and>
   (\<forall>k < length (outbox db).
      outbox (snd (acknowledge t i st db)) ! k =
        (if o_id (outbox db ! k) = i \<and> o_status (outbox db ! k) = Pending
         then (outbox db ! k)\<lparr>o_status := status_of_ack st,
                                o_sent_at := (if st = AckSent then Some t else None)\<rparr>
         else outbox db ! k)) \<and>
   acknowledge t2 i st2 (snd (acknowledge t i st db)) = (False, snd (acknowledge t i st db)) \<and>
   (\<forall>k < length (outbox db).
      (o_status (outbox (snd (acknowledge_all xs db)) ! k) \<noteq> o_status (outbox db ! k) \<longrightarrow>
         o_status (outbox db ! k) = Pending \<and>
         o_status (outbox (snd (acknowledge_all xs db)) ! k) \<in> {Sent, Failed}) \<and>
      (o_status (outbox (snd (acknowledge_all xs db)) ! k) \<noteq> Pending \<longrightarrow>
         outbox (snd (acknowledge_all (xs @ ys) db)) ! k =
         outbox (snd (acknowledge_all xs db)) ! k))"
proof (intro conjI allI impI)
  show "fst (acknowledge t i st db) =
     (\<exists>r\<in>set (outbox db). o_id r = i \<and> o_status r = Pending)"
    by (rule acknowledge_applied_iff)
next
  fix k assume "k < length (outbox db)"
  then show "outbox (snd (acknowledge t i st db)) ! k =
        (if o_id (outbox db ! k) = i \<and> o_status (outbox db ! k) = Pending
         then (outbox db ! k)\<lparr>o_status := status_of_ack st,
                                o_sent_at := (if st = AckSent then Some t else None)\<rparr>
         else outbox db ! k)"
    by (simp add: acknowledge_nth ack_row_def)
next
  show "acknowledge t2 i st2 (snd (acknowledge t i st db)) = (False, snd (acknowledge t i st db))"
    by (rule acknowledge_twice)
next
  fix k
  assume "k < length (outbox db)"
    and "o_status (outbox (snd (acknowledge_all xs db)) ! k) \<noteq> o_status (outbox db ! k)"
  then have "o_status (outbox db ! k) = Pending \<and>
         o_status (outbox (snd (acknowledge_all xs db)) ! k) \<in> {Sent, Failed}"
    by (rule acknowledge_all_status)
  then show "o_status (outbox db ! k) = Pending"
    and "o_status (outbox (snd (acknowledge_all xs db)) ! k) \<in> {Sent, Failed}"
    by simp_all
next
  fix k
  assume k: "k < length (outbox db)"
    and np: "o_status (outbox (snd (acknowledge_all xs db)) ! k) \<noteq> Pending"
  from k have "k < length (outbox (snd (acknowledge_all xs db)))"
    by (simp only: acknowledge_all_length)
  then have "outbox (snd (acknowledge_all ys (snd (acknowledge_all xs db)))) ! k =
         outbox (snd (acknowledge_all xs db)) ! k"
    using np by (rule acknowledge_all_frozen)
  then show "outbox (snd (acknowledge_all (xs @ ys) db)) ! k =
         outbox (snd (acknowledge_all xs db)) ! k"
    by (simp only: acknowledge_all_append)
qed

theorem acknowledge_pending_once_witness:
  "fst (acknowledge 5 1 AckSent (snd (enqueue 1 ''+15551234567'' ''hello'' empty_db))) \<and>
   outbox (snd (acknowledge 5 1 AckSent (snd (enqueue 1 ''+15551234567'' ''hello'' empty_db)))) ! 0 =
     \<lparr>o_id = 1, o_phone_number = ''+15551234567'', o_content = ''hello'', o_created_at = 1,
      o_status = Sent, o_sent_at = Some 5\<rparr> \<and>
   acknowledge 7 1 AckFailed
       (snd (acknowledge 5 1 AckSent (snd (enqueue 1 ''+15551234567'' ''hello'' empty_db)))) =
     (False, snd (acknowledge 5 1 AckSent (snd (enqueue 1 ''+15551234567'' ''hello'' empty_db)))) \<and>
   outbox (snd (acknowledge_all ([(5, 1, AckSent)] @ [(7, 1, AckFailed)])
       (snd (enqueue 1 ''+15551234567'' ''hello'' empty_db)))) ! 0 =
     outbox (snd (acknowledge_all [(5, 1, AckSent)]
       (snd (enqueue 1 ''+15551234567'' ''hello'' empty_db)))) ! 0"
  using acknowledge_pending_once
    [of 5 1 AckSent "snd (enqueue 1 ''+15551234567'' ''hello'' empty_db)" 7 AckFailed
        "[(5, 1, AckSent)]" "[(7, 1, AckFailed)]"]
  by (simp add: enqueue_def empty_db_def acknowledge_def ack_row_def Let_def)

section \<open>Properties of the history store\<close>

lemma get_history_drop:
  "get_history cid n db =
     (if int64 cid \<and> int64 n
      then Inr (if n < 0 then sort_key m_timestamp (conversation_messages cid db)
                else drop (length (conversation_messages cid db) - nat n)
                       (sort_key m_timestamp (conversation_messages cid db)))
      else Inl OverflowError)"
  by (simp add: get_history_def sql_limit_def order_by_timestamp_desc_def Let_def rev_take)

lemma sorted_drop_key: "sorted (map f xs) \<Longrightarrow> sorted (map f (drop n xs))"
  by (simp add: drop_map[symmetric])

lemma mset_minus_drop: "mset xs - mset (drop n xs) = mset (take n xs)"
proof -
  have "mset xs = mset (take n xs) + mset (drop n xs)"
    by (metis append_take_drop_id mset_append)
  then show ?thesis by simp
qed

lemma sorted_take_le_drop:
  assumes "sorted (map f xs)" "x \<in> set (take n xs)" "y \<in> set (drop n xs)"
  shows "f x \<le> f y"
proof -
  have "sorted (map f (take n xs) @ map f (drop n xs))"
    using assms(1) by (metis append_take_drop_id map_append)
  then show ?thesis using assms(2,3) by (auto simp: sorted_append)
qed

text \<open>
  C4 (as amended). For a conversation holding M messages, its id a SQLite row id (a
  64-bit signed integer), and a limit N with 0 \<le> N < 2^63, \<^verbatim>\<open>get_history\<close>
  returns min(M, N) messages of that conversation, in ascending timestamp order, and no
  message left out is more recent than a message returned; when M is at most N it
  returns all M messages.
\<close>

theorem get_history_most_recent:
  assumes "int64 cid" and "0 \<le> n" and "n < 2 ^ 63"
  shows "\<exists>res. get_history cid n db = Inr res \<and>
    length res = min (length (conversation_messages cid db)) (nat n) \<and>
    sorted (map m_timestamp res) \<and>
    mset res \<subseteq># mset (conversation_messages cid db) \<and>
    (\<forall>x \<in># mset (conversation_messages cid db) - mset res.
       \<forall>y \<in> set res. m_timestamp x \<le> m_timestamp y) \<and>
    (length (conversation_messages cid db) \<le> nat n \<longrightarrow>
       mset res = mset (conversation_messages cid db))"
proof -
  let ?msgs = "conversation_messages cid db"
  let ?S = "sort_key m_timestamp ?msgs"
  let ?d = "length ?msgs - nat n"
  have "int64 n" using assms(2,3) by (simp add: int64_def)
  then have res: "get_history cid n db = Inr (drop ?d ?S)"
    using assms(1,2) by (simp add: get_history_drop)
  have 1: "length (drop ?d ?S) = min (length ?msgs) (nat n)" by simp
  have 2: "sorted (map m_timestamp (drop ?d ?S))" by (rule sorted_drop_key) simp
  have "mset (drop ?d ?S) \<subseteq># mset ?S"
    by (metis append_take_drop_id mset_append mset_subset_eq_add_right)
  then have 3: "mset (drop ?d ?S) \<subseteq># mset ?msgs" by simp
  have m: "mset ?msgs - mset (drop ?d ?S) = mset (take ?d ?S)"
    using mset_minus_drop[of ?S ?d] by simp
  have 4: "\<forall>x \<in># mset ?msgs - mset (drop ?d ?S). \<forall>y \<in> set (drop ?d ?S).
       m_timestamp x \<le> m_timestamp y"
    unfolding m using sorted_take_le_drop[of m_timestamp ?S _ ?d] by simp
  have 5: "length ?msgs \<le> nat n \<longrightarrow> mset (drop ?d ?S) = mset ?msgs" by simp
  from res 1 2 3 4 5 show ?thesis by (intro exI[of _ "drop ?d ?S"] conjI)
qed

theorem get_history_most_recent_witness:
  "int64 1 \<and> (0::int) \<le> 2 \<and> (2::int) < 2 ^ 63 \<and>
   get_history 1 2 history_example =
     Inr [\<lparr>m_id = 2, m_conversation_id = 1, m_role = Assistant, m_content = ''b'',
           m_timestamp = 2, m_status = Pending\<rparr>,
          \<lparr>m_id = 3, m_conversation_id = 1, m_role = User, m_content = ''c'',
           m_timestamp = 3, m_status = Received\<rparr>] \<and>
   length (conversation_messages 1 history_example) = 3"
  using get_history_most_recent [of 1 2 history_example]
  by (simp add: get_history_def int64_def sql_limit_def order_by_timestamp_desc_def
      conversation_messages_def history_example_def)

text \<open>
  With a negative limit the query returns every message of the conversation: the number
  of messages returned is then not min(M, N). With a limit of 2^63 the binding raises
  and no message is returned.
\<close>

theorem get_history_limit_out_of_range:
  "length (conversation_messages 1 history_example) = 3 \<and>
   get_history 1 (- 1) history_example = Inr (messages history_example) \<and>
   int (length (messages history_example)) \<noteq>
     min (int (length (conversation_messages 1 history_example))) (- 1) \<and>
   get_history 1 (2 ^ 63) history_example = Inl OverflowError"
  by (simp add: get_history_def int64_def sql_limit_def order_by_timestamp_desc_def
      conversation_messages_def history_example_def)

section \<open>Properties of the AI responder adapter\<close>

lemma FALLBACK_nonempty: "FALLBACK_MESSAGE \<noteq> []"
  by (simp add: FALLBACK_MESSAGE_def)

lemma retry_loop_step:
  assumes "retryable (c a)"
  shows "\<exists>tr'. retry_loop mr c (a # rest) tr = retry_loop mr c rest tr' \<and>
               called tr' = called tr @ [a]"
proof (cases "c a")
  case (Completion x) with assms show ?thesis by simp
next
  case Raise_RateLimitError
  then show ?thesis by (intro exI[of _ "tr\<lparr>called := called tr @ [a],
                slept := slept tr @ [min (2 ^ (a + 2)) 30]\<rparr>"]) simp
next
  case Raise_APIError
  show ?thesis
  proof (cases "int a < mr - 1")
    case True
    with Raise_APIError show ?thesis
      by (intro exI[of _ "tr\<lparr>called := called tr @ [a], slept := slept tr @ [2 ^ a]\<rparr>"]) simp
  next
    case False
    with Raise_APIError show ?thesis
      by (intro exI[of _ "tr\<lparr>called := called tr @ [a]\<rparr>"]) simp
  qed
next
  case Raise_Exception with assms show ?thesis by simp
qed

lemma retry_loop_skip:
  assumes "i \<le> k" "k \<le> n" "\<forall>j. i \<le> j \<and> j < k \<longrightarrow> retryable (c j)"
  shows "\<exists>tr'. retry_loop mr c [i..<n] tr = retry_loop mr c [k..<n] tr' \<and>
               called tr' = called tr @ [i..<k]"
  using assms
proof (induction k rule: dec_induct)
  case base
  show ?case by (intro exI[of _ tr]) simp
next
  case (step m)
  then obtain tr1 where 1: "retry_loop mr c [i..<n] tr = retry_loop mr c [m..<n] tr1"
    and c1: "called tr1 = called tr @ [i..<m]"
    by auto
  from step have mn: "m < n" and r: "retryable (c m)" by auto
  from mn have u: "[m..<n] = m # [Suc m..<n]" by (rule upt_conv_Cons)
  from retry_loop_step[of c m mr "[Suc m..<n]" tr1] r
  obtain tr2 where 2: "retry_loop mr c (m # [Suc m..<n]) tr1 = retry_loop mr c [Suc m..<n] tr2"
    and c2: "called tr2 = called tr1 @ [m]" by blast
  from step.hyps(1) have "[i..<Suc m] = [i..<m] @ [m]" by simp
  with 1 2 c1 c2 u show ?case by (intro exI[of _ tr2]) simp
qed

lemma retry_loop_result:
  "fst (retry_loop mr c xs tr) \<noteq> [] \<and>
   (fst (retry_loop mr c xs tr) = FALLBACK_MESSAGE \<or>
    (\<exists>k\<in>set xs. c k = Completion (Some (fst (retry_loop mr c xs tr))))) \<and>
   (\<exists>ys. prefix ys xs \<and> called (snd (retry_loop mr c xs tr)) = called tr @ ys)"
proof (induction xs arbitrary: tr)
  case Nil
  show ?case by (simp add: FALLBACK_nonempty)
next
  case (Cons a xs)
  show ?case
  proof (cases "retryable (c a)")
    case True
    from retry_loop_step[of c a mr xs tr] True
    obtain tr' where e: "retry_loop mr c (a # xs) tr = retry_loop mr c xs tr'"
      and ct: "called tr' = called tr @ [a]" by blast
    from Cons.IH[of tr'] obtain ys where
      p: "prefix ys xs" and cs: "called (snd (retry_loop mr c xs tr')) = called tr' @ ys"
      by blast
    have "prefix (a # ys) (a # xs)" using p by simp
    moreover have "called (snd (retry_loop mr c xs tr')) = called tr @ (a # ys)"
      using cs ct by simp
    ultimately have 3: "\<exists>zs. prefix zs (a # xs) \<and>
        called (snd (retry_loop mr c (a # xs) tr)) = called tr @ zs"
      unfolding e by blast
    from Cons.IH[of tr'] have 1: "fst (retry_loop mr c (a # xs) tr) \<noteq> []"
      and 2: "fst (retry_loop mr c (a # xs) tr) = FALLBACK_MESSAGE \<or>
        (\<exists>k\<in>set (a # xs). c k = Completion (Some (fst (retry_loop mr c (a # xs) tr))))"
      unfolding e by auto
    from 1 2 3 show ?thesis by blast
  next
    case False
    have p: "prefix [a] (a # xs)" by simp
    from False show ?thesis
    proof (cases "c a")
      case (Completion content)
      then show ?thesis using p
        by (cases content) (auto simp: FALLBACK_nonempty intro!: exI[of _ "[a]"])
    next
      case Raise_Exception
      then show ?thesis using p by (auto simp: FALLBACK_nonempty intro!: exI[of _ "[a]"])
    qed simp_all
  qed
qed


lemma prefix_upt: "prefix ys [0..<n] \<Longrightarrow> length ys \<le> n \<and> ys = [0..<length ys]"
proof -
  assume p: "prefix ys [0..<n]"
  then have l: "length ys \<le> n" using prefix_length_le by fastforce
  from p have "ys = take (length ys) [0..<n]" by (metis append_eq_conv_conj prefix_def)
  with l show ?thesis by simp
qed

lemma retry_loop_at:
  assumes "k < n" "\<forall>j<k. retryable (c j)"
  shows "\<exists>tr'. retry_loop mr c [0..<n] tr = retry_loop mr c (k # [Suc k..<n]) tr' \<and>
               called tr' = called tr @ [0..<k]"
proof -
  from assms have "\<exists>tr'. retry_loop mr c [0..<n] tr = retry_loop mr c [k..<n] tr' \<and>
               called tr' = called tr @ [0..<k]"
    by (intro retry_loop_skip) simp_all
  moreover have "[k..<n] = k # [Suc k..<n]" using assms(1) by (rule upt_conv_Cons)
  ultimately show ?thesis by simp
qed

lemma retry_loop_exhausted:
  assumes "\<forall>j<n. retryable (c j)"
  shows "fst (retry_loop mr c [0..<n] tr) = FALLBACK_MESSAGE \<and>
         called (snd (retry_loop mr c [0..<n] tr)) = called tr @ [0..<n]"
proof -
  from assms have "\<exists>tr'. retry_loop mr c [0..<n] tr = retry_loop mr c [n..<n] tr' \<and>
               called tr' = called tr @ [0..<n]"
    by (intro retry_loop_skip) simp_all
  then show ?thesis by auto
qed

text \<open>
  C3. \<^verbatim>\<open>generate_response\<close> always returns a non-empty string: the fallback message
  or the non-empty content of a successful attempt. It calls the provider at attempts
  0, 1, ... and at most \<open>max_retries\<close> times. When every attempt within the budget
  fails with a rate-limit or API error it returns the fallback after \<open>max_retries\<close>
  calls. When the attempts before attempt k failed with such errors, then an error of
  any other class at attempt k, or a success with no content or empty content, ends the
  run at once with the fallback, and a success with non-empty content ends it with that
  content.
\<close>

theorem generate_response_contained:
  "fst (generate_response mr client msgs prompt) \<noteq> [] \<and>
   (fst (generate_response mr client msgs prompt) = FALLBACK_MESSAGE \<or>
    (\<exists>k < nat mr. client ((System, prompt) # msgs) k =
        Completion (Some (fst (generate_response mr client msgs prompt))))) \<and>
   length (called (snd (generate_response mr client msgs prompt))) \<le> nat mr \<and>
   called (snd (generate_response mr client msgs prompt)) =
     [0..<length (called (snd (generate_response mr client msgs prompt)))] \<and>
   ((\<forall>k < nat mr. retryable (client ((System, prompt) # msgs) k)) \<longrightarrow>
      fst (generate_response mr client msgs prompt) = FALLBACK_MESSAGE \<and>
      called (snd (generate_response mr client msgs prompt)) = [0..<nat mr]) \<and>
   (\<forall>k < nat mr. (\<forall>j<k. retryable (client ((System, prompt) # msgs) j)) \<longrightarrow>
      (client ((System, prompt) # msgs) k = Raise_Exception \<or>
       client ((System, prompt) # msgs) k = Completion None \<or>
       client ((System, prompt) # msgs) k = Completion (Some []) \<longrightarrow>
         fst (generate_response mr client msgs prompt) = FALLBACK_MESSAGE \<and>
         called (snd (generate_response mr client msgs prompt)) = [0..<Suc k]) \<and>
      (\<forall>s. s \<noteq> [] \<and> client ((System, prompt) # msgs) k = Completion (Some s) \<longrightarrow>
         fst (generate_response mr client msgs prompt) = s \<and>
         called (snd (generate_response mr client msgs prompt)) = [0..<Suc k]))"
proof -
  let ?c = "client ((System, prompt) # msgs)"
  let ?t = "\<lparr>called = [], slept = []\<rparr>"
  let ?R = "retry_loop mr ?c [0..<nat mr] ?t"
  have R: "generate_response mr client msgs prompt = ?R"
    by (simp add: generate_response_def)
  from retry_loop_result[of mr ?c "[0..<nat mr]" ?t]
  obtain ys where 1: "fst ?R \<noteq> []"
    and 2: "fst ?R = FALLBACK_MESSAGE \<or> (\<exists>k\<in>set [0..<nat mr]. ?c k = Completion (Some (fst ?R)))"
    and p: "prefix ys [0..<nat mr]" and cy: "called (snd ?R) = ys"
    by auto
  from 2 have b2: "fst ?R = FALLBACK_MESSAGE \<or> (\<exists>k < nat mr. ?c k = Completion (Some (fst ?R)))"
    by auto
  from prefix_upt[OF p] cy have 3: "length (called (snd ?R)) \<le> nat mr"
    and 4: "called (snd ?R) = [0..<length (called (snd ?R))]" by simp_all
  have 5: "(\<forall>k < nat mr. retryable (?c k)) \<longrightarrow>
      fst ?R = FALLBACK_MESSAGE \<and> called (snd ?R) = [0..<nat mr]"
    using retry_loop_exhausted[of "nat mr" ?c mr ?t] by simp
  have 6: "\<forall>k < nat mr. (\<forall>j<k. retryable (?c j)) \<longrightarrow>
      (?c k = Raise_Exception \<or> ?c k = Completion None \<or> ?c k = Completion (Some []) \<longrightarrow>
         fst ?R = FALLBACK_MESSAGE \<and> called (snd ?R) = [0..<Suc k]) \<and>
      (\<forall>s. s \<noteq> [] \<and> ?c k = Completion (Some s) \<longrightarrow>
         fst ?R = s \<and> called (snd ?R) = [0..<Suc k])"
  proof (intro allI impI)
    fix k assume k: "k < nat mr" and r: "\<forall>j<k. retryable (?c j)"
    from retry_loop_at[OF k r, of mr ?t]
    obtain tr' where e: "?R = retry_loop mr ?c (k # [Suc k..<nat mr]) tr'"
      and c: "called tr' = [0..<k]" by auto
    show "(?c k = Raise_Exception \<or> ?c k = Completion None \<or> ?c k = Completion (Some []) \<longrightarrow>
         fst ?R = FALLBACK_MESSAGE \<and> called (snd ?R) = [0..<Suc k]) \<and>
      (\<forall>s. s \<noteq> [] \<and> ?c k = Completion (Some s) \<longrightarrow>
         fst ?R = s \<and> called (snd ?R) = [0..<Suc k])"
      unfolding e using c by auto
  qed
  show ?thesis unfolding R using 1 b2 3 4 5 6 by blast
qed

theorem generate_response_contained_witness:
  "generate_response 3 (\<lambda>_ _. Raise_APIError) [(User, ''hi'')] ''be brief'' =
     (FALLBACK_MESSAGE, \<lparr>called = [0, 1, 2], slept = [1, 2]\<rparr>) \<and>
   fst (generate_response 3 (\<lambda>_ k. if k = 0 then Raise_RateLimitError else Completion (Some ''hello''))
     [(User, ''hi'')] ''be brief'') = ''hello'' \<and>
   called (snd (generate_response 3 (\<lambda>_ k. if k = 0 then Raise_RateLimitError else Raise_Exception)
     [(User, ''hi'')] ''be brief'')) = [0, 1]"
  using generate_response_contained [of 3 "\<lambda>_ _. Raise_APIError" "[(User, ''hi'')]" "''be brief''"]
  by (simp add: generate_response_def upt_conv_Cons)

section \<open>Idempotence of normalisation\<close>

text \<open>
  C10. Normalising a phone number twice gives the same result as normalising it once,
  and therefore the authorisation decision of any service instance is the same for a
  number and for its normalised form.
\<close>

theorem normalize_idempotent_authorization:
  "normalize_phone (normalize_phone s) = normalize_phone s \<and>
   is_authorized self p = is_authorized self (normalize_phone p)"
  by (simp add: is_authorized_def normalize_phone_idem)

section \<open>Properties of the conversation store\<close>

lemma find_by_phone_None:
  "find_by_phone p db = None \<longleftrightarrow> p \<notin> c_phone_number ` set (conversations db)"
proof -
  have "find_by_phone p db = None \<longleftrightarrow>
      filter (\<lambda>c. c_phone_number c = p) (conversations db) = []"
    by (simp add: find_by_phone_def split: list.splits)
  also have "\<dots> \<longleftrightarrow> p \<notin> c_phone_number ` set (conversations db)"
    by (auto simp: filter_empty_conv)
  finally show ?thesis .
qed

lemma find_or_create_resume:
  "(case resume t (Start p) db of (c, d) \<Rightarrow> resume t c d) =
     (case find_or_create t p db of
        Inl e \<Rightarrow> (Raised e, db)
      | Inr (c, d) \<Rightarrow> (Returned c, d))"
  by (simp add: find_or_create_def split: option.splits sum.splits prod.splits)

lemma find_or_create_sequential:
  "\<exists>c d. find_or_create t p db = Inr (c, d) \<and> c_phone_number c = p"
proof (cases "find_by_phone p db")
  case None
  then have "p \<notin> c_phone_number ` set (conversations db)" by (simp add: find_by_phone_None)
  with None show ?thesis by (simp add: find_or_create_def insert_conversation_def Let_def)
next
  case (Some c)
  then have "c_phone_number c = p"
    by (auto simp: find_by_phone_def split: list.splits dest: filter_eq_ConsD)
  with Some show ?thesis by (simp add: find_or_create_def)
qed

text \<open>
  C2. Two calls of \<^verbatim>\<open>find_or_create\<close> for the same number on an empty table, each
  suspended after its lookup before either inserts: the first insert succeeds, the second
  violates the UNIQUE constraint. One row exists afterwards, but the second caller gets
  \<^verbatim>\<open>IntegrityError\<close> and no conversation.
\<close>

theorem find_or_create_race:
  "run_schedule [(0, 10), (1, 10), (0, 11), (1, 12)]
      [Start ''+15551234567'', Start ''+15551234567''] empty_db =
   ([Returned \<lparr>c_id = 1, c_phone_number = ''+15551234567'', c_created_at = 11,
                c_updated_at = 11\<rparr>,
     Raised IntegrityError],
    empty_db\<lparr>conversations :=
               [\<lparr>c_id = 1, c_phone_number = ''+15551234567'', c_created_at = 11,
                 c_updated_at = 11\<rparr>],
             conversations_seq := 1\<rparr>)"
  by (simp add: find_by_phone_def insert_conversation_def empty_db_def Let_def)

section \<open>Properties of the message processor\<close>

text \<open>
  C5. When the sender is not authorised, \<^verbatim>\<open>process_incoming\<close> returns false and the
  world is the one it was called in: no collaborator has run, so no conversation,
  message or outbox row was written and the provider received no request.
\<close>

theorem process_incoming_unauthorized:
  "\<not> is_authorized (auth self) p \<Longrightarrow> process_incoming self p c ts w = (False, [], w)"
  by (simp add: process_incoming_def)

theorem process_incoming_unauthorized_witness:
  "\<not> is_authorized (AuthService_init [''+15559999999'']) ''+15551111111'' \<and>
   process_incoming
     (get_sms_service (AuthService_init [''+15559999999'']) (stub_provider ''hello'')
        ''be brief'' 20)
     ''+15551111111'' ''hi'' None fresh_world = (False, [], fresh_world)"
  using process_incoming_unauthorized
    [of "get_sms_service (AuthService_init [''+15559999999'']) (stub_provider ''hello'')
           ''be brief'' 20"
        "''+15551111111''" "''hi''" None fresh_world]
  by (simp add: get_sms_service_def is_authorized_def AuthService_init_def normalize_phone_def
      strip_def startswith_def sub_non_digits_def is_digit_def is_space_def)

lemma openai_provider_returns:
  "\<exists>reply. fst (provider_generate_response (openai_provider mr client) msgs prompt w) = Inr reply \<and>
           reply \<noteq> []"
  using retry_loop_result [of mr "client ((System, prompt) # msgs)" "[0..<nat mr]"
      "\<lparr>called = [], slept = []\<rparr>"]
  by (simp add: provider_generate_response_def openai_provider_def generate_response_def)

lemma try_success:
  assumes "process_incoming_try self p c w = (Inr b, logs, w')"
  shows "\<exists>conv w1 m1 w2 h w3 r w4 m2 w5 i w6 u.
      conversations_find_or_create self p w = (Inr conv, w1) \<and>
      messages_create self (c_id conv) User c Received w1 = (Inr m1, w2) \<and>
      messages_get_history self (c_id conv) (max_context self) w2 = (Inr h, w3) \<and>
      ai_generate_response self (map (\<lambda>msg. (m_role msg, m_content msg)) h)
        (system_prompt self) w3 = (Inr r, w4) \<and>
      messages_create self (c_id conv) Assistant r Pending w4 = (Inr m2, w5) \<and>
      outbox_enqueue self p r w5 = (Inr i, w6) \<and>
      conversations_touch self (c_id conv) w6 = (Inr u, w') \<and> b"
  using assms unfolding process_incoming_try_def
  by (auto split: prod.splits sum.splits)


lemma try_raise_1:
  "conversations_find_or_create self p w = (Inl e, w1) \<Longrightarrow>
   process_incoming_try self p c w = (Inl e, [], w1)"
  by (simp add: process_incoming_try_def)

lemma try_raise_2:
  "conversations_find_or_create self p w = (Inr conv, w1) \<Longrightarrow>
   messages_create self (c_id conv) User c Received w1 = (Inl e, w2) \<Longrightarrow>
   process_incoming_try self p c w = (Inl e, [Info_processing p (c_id conv)], w2)"
  by (simp add: process_incoming_try_def)

lemma try_raise_3:
  "conversations_find_or_create self p w = (Inr conv, w1) \<Longrightarrow>
   messages_create self (c_id conv) User c Received w1 = (Inr m1, w2) \<Longrightarrow>
   messages_get_history self (c_id conv) (max_context self) w2 = (Inl e, w3) \<Longrightarrow>
   process_incoming_try self p c w = (Inl e, [Info_processing p (c_id conv)], w3)"
  by (simp add: process_incoming_try_def)

lemma try_raise_4:
  "conversations_find_or_create self p w = (Inr conv, w1) \<Longrightarrow>
   messages_create self (c_id conv) User c Received w1 = (Inr m1, w2) \<Longrightarrow>
   messages_get_history self (c_id conv) (max_context self) w2 = (Inr h, w3) \<Longrightarrow>
   ai_generate_response self (map (\<lambda>msg. (m_role msg, m_content msg)) h)
     (system_prompt self) w3 = (Inl e, w4) \<Longrightarrow>
   process_incoming_try self p c w =
     (Inl e, [Info_processing p (c_id conv), Info_generating (c_id conv)], w4)"
  by (simp add: process_incoming_try_def)

lemma try_raise_5:
  "conversations_find_or_create self p w = (Inr conv, w1) \<Longrightarrow>
   messages_create self (c_id conv) User c Received w1 = (Inr m1, w2) \<Longrightarrow>
   messages_get_history self (c_id conv) (max_context self) w2 = (Inr h, w3) \<Longrightarrow>
   ai_generate_response self (map (\<lambda>msg. (m_role msg, m_content msg)) h)
     (system_prompt self) w3 = (Inr r, w4) \<Longrightarrow>
   messages_create self (c_id conv) Assistant r Pending w4 = (Inl e, w5) \<Longrightarrow>
   process_incoming_try self p c w =
     (Inl e, [Info_processing p (c_id conv), Info_generating (c_id conv)], w5)"
  by (simp add: process_incoming_try_def)

lemma try_raise_6:
  "conversations_find_or_create self p w = (Inr conv, w1) \<Longrightarrow>
   messages_create self (c_id conv) User c Received w1 = (Inr m1, w2) \<Longrightarrow>
   messages_get_history self (c_id conv) (max_context self) w2 = (Inr h, w3) \<Longrightarrow>
   ai_generate_response self (map (\<lambda>msg. (m_role msg, m_content msg)) h)
     (system_prompt self) w3 = (Inr r, w4) \<Longrightarrow>
   messages_create self (c_id conv) Assistant r Pending w4 = (Inr m2, w5) \<Longrightarrow>
   outbox_enqueue self p r w5 = (Inl e, w6) \<Longrightarrow>
   process_incoming_try self p c w =
     (Inl e, [Info_processing p (c_id conv), Info_generating (c_id conv)], w6)"
  by (simp add: process_incoming_try_def)

lemma try_raise_7:
  "conversations_find_or_create self p w = (Inr conv, w1) \<Longrightarrow>
   messages_create self (c_id conv) User c Received w1 = (Inr m1, w2) \<Longrightarrow>
   messages_get_history self (c_id conv) (max_context self) w2 = (Inr h, w3) \<Longrightarrow>
   ai_generate_response self (map (\<lambda>msg. (m_role msg, m_content msg)) h)
     (system_prompt self) w3 = (Inr r, w4) \<Longrightarrow>
   messages_create self (c_id conv) Assistant r Pending w4 = (Inr m2, w5) \<Longrightarrow>
   outbox_enqueue self p r w5 = (Inr i, w6) \<Longrightarrow>
   conversations_touch self (c_id conv) w6 = (Inl e, w7) \<Longrightarrow>
   process_incoming_try self p c w =
     (Inl e, [Info_processing p (c_id conv), Info_generating (c_id conv)], w7)"
  by (simp add: process_incoming_try_def)

lemma process_incoming_caught:
  "is_authorized (auth self) p \<Longrightarrow> process_incoming_try self p c w = (Inl e, logs, w') \<Longrightarrow>
   process_incoming self p c ts w = (False, logs @ [Error_processing p e], w')"
  by (simp add: process_incoming_def)

lemma process_incoming_True_iff:
  "fst (process_incoming self p c ts w) =
     (is_authorized (auth self) p \<and> fst (process_incoming_try self p c w) = Inr True)"
  by (auto simp: process_incoming_def split: prod.splits sum.splits)

text \<open>
  C6. \<^verbatim>\<open>process_incoming\<close> is total: it returns a boolean whatever its collaborators
  do. On the authorised path, when a collaborator raises (the conversation store at
  \<^verbatim>\<open>find_or_create\<close> or \<^verbatim>\<open>touch\<close>, the message store at either
  \<^verbatim>\<open>create\<close> or at \<^verbatim>\<open>get_history\<close>, the AI provider, the outbox at
  \<^verbatim>\<open>enqueue\<close>) after the calls before it returned, the exception is caught: the
  result is false, the error is the last record logged, and the world is the one the
  failing call left. The result is true only when the body of the \<^verbatim>\<open>try\<close> ran to
  its end.
\<close>

theorem process_incoming_never_raises:
  assumes "is_authorized (auth self) p"
  shows
   "(conversations_find_or_create self p w = (Inl e, w1) \<longrightarrow>
       process_incoming self p c ts w = (False, [Error_processing p e], w1)) \<and>
    (conversations_find_or_create self p w = (Inr conv, w1) \<and>
     messages_create self (c_id conv) User c Received w1 = (Inl e, w2) \<longrightarrow>
       process_incoming self p c ts w =
         (False, [Info_processing p (c_id conv), Error_processing p e], w2)) \<and>
    (conversations_find_or_create self p w = (Inr conv, w1) \<and>
     messages_create self (c_id conv) User c Received w1 = (Inr m1, w2) \<and>
     messages_get_history self (c_id conv) (max_context self) w2 = (Inl e, w3) \<longrightarrow>
       process_incoming self p c ts w =
         (False, [Info_processing p (c_id conv), Error_processing p e], w3)) \<and>
    (conversations_find_or_create self p w = (Inr conv, w1) \<and>
     messages_create self (c_id conv) User c Received w1 = (Inr m1, w2) \<and>
     messages_get_history self (c_id conv) (max_context self) w2 = (Inr h, w3) \<and>
     ai_generate_response self (map (\<lambda>msg. (m_role msg, m_content msg)) h)
       (system_prompt self) w3 = (Inl e, w4) \<longrightarrow>
       process_incoming self p c ts w =
         (False, [Info_processing p (c_id conv), Info_generating (c_id conv),
                  Error_processing p e], w4)) \<and>
    (conversations_find_or_create self p w = (Inr conv, w1) \<and>
     messages_create self (c_id conv) User c Received w1 = (Inr m1, w2) \<and>
     messages_get_history self (c_id conv) (max_context self) w2 = (Inr h, w3) \<and>
     ai_generate_response self (map (\<lambda>msg. (m_role msg, m_content msg)) h)
       (system_prompt self) w3 = (Inr r, w4) \<and>
     messages_create self (c_id conv) Assistant r Pending w4 = (Inl e, w5) \<longrightarrow>
       process_incoming self p c ts w =
         (False, [Info_processing p (c_id conv), Info_generating (c_id conv),
                  Error_processing p e], w5)) \<and>
    (conversations_find_or_create self p w = (Inr conv, w1) \<and>
     messages_create self (c_id conv) User c Received w1 = (Inr m1, w2) \<and>
     messages_get_history self (c_id conv) (max_context self) w2 = (Inr h, w3) \<and>
     ai_generate_response self (map (\<lambda>msg. (m_role msg, m_content msg)) h)
       (system_prompt self) w3 = (Inr r, w4) \<and>
     messages_create self (c_id conv) Assistant r Pending w4 = (Inr m2, w5) \<and>
     outbox_enqueue self p r w5 = (Inl e, w6) \<longrightarrow>
       process_incoming self p c ts w =
         (False, [Info_processing p (c_id conv), Info_generating (c_id conv),
                  Error_processing p e], w6)) \<and>
    (conversations_find_or_create self p w = (Inr conv, w1) \<and>
     messages_create self (c_id conv) User c Received w1 = (Inr m1, w2) \<and>
     messages_get_history self (c_id conv) (max_context self) w2 = (Inr h, w3) \<and>
     ai_generate_response self (map (\<lambda>msg. (m_role msg, m_content msg)) h)
       (system_prompt self) w3 = (Inr r, w4) \<and>
     messages_create self (c_id conv) Assistant r Pending w4 = (Inr m2, w5) \<and>
     outbox_enqueue self p r w5 = (Inr i, w6) \<and>
     conversations_touch self (c_id conv) w6 = (Inl e, w7) \<longrightarrow>
       process_incoming self p c ts w =
         (False, [Info_processing p (c_id conv), Info_generating (c_id conv),
                  Error_processing p e], w7)) \<and>
    (fst (process_incoming self p c ts w) \<longrightarrow>
       (\<exists>b logs w'. process_incoming_try self p c w = (Inr b, logs, w')))"
proof -
  note caught = process_incoming_caught [OF assms, where ts = ts]
  have 1: "conversations_find_or_create self p w = (Inl e, w1) \<longrightarrow>
       process_incoming self p c ts w = (False, [Error_processing p e], w1)"
    using caught [OF try_raise_1] by auto
  have 2: "conversations_find_or_create self p w = (Inr conv, w1) \<and>
     messages_create self (c_id conv) User c Received w1 = (Inl e, w2) \<longrightarrow>
       process_incoming self p c ts w =
         (False, [Info_processing p (c_id conv), Error_processing p e], w2)"
    using caught [OF try_raise_2] by auto
  have 3: "conversations_find_or_create self p w = (Inr conv, w1) \<and>
     messages_create self (c_id conv) User c Received w1 = (Inr m1, w2) \<and>
     messages_get_history self (c_id conv) (max_context self) w2 = (Inl e, w3) \<longrightarrow>
       process_incoming self p c ts w =
         (False, [Info_processing p (c_id conv), Error_processing p e], w3)"
    using caught [OF try_raise_3] by auto
  have 4: "conversations_find_or_create self p w = (Inr conv, w1) \<and>
     messages_create self (c_id conv) User c Received w1 = (Inr m1, w2) \<and>
     messages_get_history self (c_id conv) (max_context self) w2 = (Inr h, w3) \<and>
     ai_generate_response self (map (\<lambda>msg. (m_role msg, m_content msg)) h)
       (system_prompt self) w3 = (Inl e, w4) \<longrightarrow>
       process_incoming self p c ts w =
         (False, [Info_processing p (c_id conv), Info_generating (c_id conv),
                  Error_processing p e], w4)"
    using caught [OF try_raise_4] by auto
  have 5: "conversations_find_or_create self p w = (Inr conv, w1) \<and>
     messages_create self (c_id conv) User c Received w1 = (Inr m1, w2) \<and>
     messages_get_history self (c_id conv) (max_context self) w2 = (Inr h, w3) \<and>
     ai_generate_response self (map (\<lambda>msg. (m_role msg, m_content msg)) h)
       (system_prompt self) w3 = (Inr r, w4) \<and>
     messages_create self (c_id conv) Assistant r Pending w4 = (Inl e, w5) \<longrightarrow>
       process_incoming self p c ts w =
         (False, [Info_processing p (c_id conv), Info_generating (c_id conv),
                  Error_processing p e], w5)"
    using caught [OF try_raise_5] by auto
  have 6: "conversations_find_or_create self p w = (Inr conv, w1) \<and>
     messages_create self (c_id conv) User c Received w1 = (Inr m1, w2) \<and>
     messages_get_history self (c_id conv) (max_context self) w2 = (Inr h, w3) \<and>
     ai_generate_response self (map (\<lambda>msg. (m_role msg, m_content msg)) h)
       (system_prompt self) w3 = (Inr r, w4) \<and>
     messages_create self (c_id conv) Assistant r Pending w4 = (Inr m2, w5) \<and>
     outbox_enqueue self p r w5 = (Inl e, w6) \<longrightarrow>
       process_incoming self p c ts w =
         (False, [Info_processing p (c_id conv), Info_generating (c_id conv),
                  Error_processing p e], w6)"
    using caught [OF try_raise_6] by auto
  have 7: "conversations_find_or_create self p w = (Inr conv, w1) \<and>
     messages_create self (c_id conv) User c Received w1 = (Inr m1, w2) \<and>
     messages_get_history self (c_id conv) (max_context self) w2 = (Inr h, w3) \<and>
     ai_generate_response self (map (\<lambda>msg. (m_role msg, m_content msg)) h)
       (system_prompt self) w3 = (Inr r, w4) \<and>
     messages_create self (c_id conv) Assistant r Pending w4 = (Inr m2, w5) \<and>
     outbox_enqueue self p r w5 = (Inr i, w6) \<and>
     conversations_touch self (c_id conv) w6 = (Inl e, w7) \<longrightarrow>
       process_incoming self p c ts w =
         (False, [Info_processing p (c_id conv), Info_generating (c_id conv),
                  Error_processing p e], w7)"
    using caught [OF try_raise_7] by auto
  have 8: "fst (process_incoming self p c ts w) \<longrightarrow>
       (\<exists>b logs w'. process_incoming_try self p c w = (Inr b, logs, w'))"
  proof
    assume "fst (process_incoming self p c ts w)"
    then have "fst (process_incoming_try self p c w) = Inr True"
      by (simp add: process_incoming_True_iff)
    then show "\<exists>b logs w'. process_incoming_try self p c w = (Inr b, logs, w')"
      by (cases "process_incoming_try self p c w") auto
  qed
  from 1 2 3 4 5 6 7 8 show ?thesis by (intro conjI)
qed

theorem process_incoming_never_raises_witness:
  "is_authorized (AuthService_init []) ''+15551234567'' \<and>
   process_incoming
     ((get_sms_service (AuthService_init []) (stub_provider ''hello'') ''be brief'' 20)
        \<lparr>conversations_find_or_create := (\<lambda>p w. (Inl OperationalError, w))\<rparr>)
     ''+15551234567'' ''hi'' None fresh_world =
     (False, [Error_processing ''+15551234567'' OperationalError], fresh_world) \<and>
   fst (process_incoming
     (get_sms_service (AuthService_init []) failing_provider ''be brief'' 20)
     ''+15551234567'' ''hi'' None fresh_world) = False"
  using process_incoming_never_raises
    [where self = "(get_sms_service (AuthService_init []) (stub_provider ''hello'')
                      ''be brief'' 20)
                    \<lparr>conversations_find_or_create := (\<lambda>p w. (Inl OperationalError, w))\<rparr>"
       and p = "''+15551234567''" and c = "''hi''" and ts = None and w = fresh_world
       and e = OperationalError and ?w1.0 = fresh_world]
  by (simp add: process_incoming_def process_incoming_try_def get_sms_service_def
      repo_find_or_create_def repo_create_def repo_get_history_def
      provider_generate_response_def find_or_create_def find_by_phone_def
      insert_conversation_def create_def get_history_def int64_def sql_limit_def
      order_by_timestamp_desc_def conversation_messages_def utcnow_def fresh_world_def
      empty_db_def failing_provider_def is_authorized_def AuthService_init_def Let_def)

lemma find_by_phone_Some:
  "find_by_phone p db = Some c \<Longrightarrow> c \<in> set (conversations db) \<and> c_phone_number c = p"
proof -
  assume "find_by_phone p db = Some c"
  then obtain rest where "filter (\<lambda>c. c_phone_number c = p) (conversations db) = c # rest"
    by (auto simp: find_by_phone_def split: list.splits)
  then have "c \<in> set (filter (\<lambda>c. c_phone_number c = p) (conversations db))" by simp
  then show ?thesis by simp
qed

lemma repo_find_or_create_facts:
  assumes "repo_find_or_create p w = (Inr conv, w1)"
  shows "c_phone_number conv = p \<and> conv \<in> set (conversations (w_db w1)) \<and>
    messages (w_db w1) = messages (w_db w) \<and> messages_seq (w_db w1) = messages_seq (w_db w) \<and>
    outbox (w_db w1) = outbox (w_db w) \<and> outbox_seq (w_db w1) = outbox_seq (w_db w) \<and>
    w_clock w1 = w_clock w \<and> w_operations w1 = w_operations w + 1"
proof (cases "find_by_phone p (w_db w)")
  case None
  with assms show ?thesis
    by (auto simp: repo_find_or_create_def find_or_create_def insert_conversation_def Let_def
        split: if_splits)
next
  case (Some c)
  with assms have "conv = c" "w1 = w\<lparr>w_operations := w_operations w + 1\<rparr>"
    by (auto simp: repo_find_or_create_def find_or_create_def)
  with find_by_phone_Some[OF Some] show ?thesis by simp
qed

lemma repo_create_facts:
  assumes "repo_create cid r c st w = (Inr m, w1)"
  shows "messages (w_db w1) = messages (w_db w) @
      [\<lparr>m_id = messages_seq (w_db w) + 1, m_conversation_id = cid, m_role = r,
        m_content = c, m_timestamp = w_clock w (w_operations w), m_status = st\<rparr>] \<and>
    messages_seq (w_db w1) = messages_seq (w_db w) + 1 \<and>
    conversations (w_db w1) = conversations (w_db w) \<and>
    outbox (w_db w1) = outbox (w_db w) \<and> outbox_seq (w_db w1) = outbox_seq (w_db w) \<and>
    w_clock w1 = w_clock w \<and> w_operations w1 = w_operations w + 1"
  using assms
  by (auto simp: repo_create_def create_def utcnow_def Let_def split: if_splits)

lemma repo_get_history_facts:
  assumes "repo_get_history cid n w = (Inr h, w1)"
  shows "w_db w1 = w_db w \<and> w_clock w1 = w_clock w \<and> w_operations w1 = w_operations w + 1"
  using assms by (auto simp: repo_get_history_def)

lemma provider_facts:
  assumes "provider_generate_response ai msgs prompt w = (Inr r, w1)"
  shows "ai msgs prompt = Inr r \<and> w_db w1 = w_db w \<and> w_clock w1 = w_clock w \<and>
    w_operations w1 = w_operations w"
  using assms by (auto simp: provider_generate_response_def)

lemma repo_enqueue_facts:
  assumes "repo_enqueue p c w = (Inr i, w1)"
  shows "outbox (w_db w1) = outbox (w_db w) @
      [\<lparr>o_id = outbox_seq (w_db w) + 1, o_phone_number = p, o_content = c,
        o_created_at = w_clock w (w_operations w), o_status = Pending, o_sent_at = None\<rparr>] \<and>
    messages (w_db w1) = messages (w_db w) \<and>
    conversations (w_db w1) = conversations (w_db w)"
  using assms by (auto simp: repo_enqueue_def enqueue_def utcnow_def Let_def)

lemma repo_touch_facts:
  assumes "repo_touch cid w = (Inr u, w1)"
  shows "outbox (w_db w1) = outbox (w_db w) \<and> messages (w_db w1) = messages (w_db w) \<and>
    (\<forall>conv\<in>set (conversations (w_db w)).
       \<exists>row\<in>set (conversations (w_db w1)).
         c_id row = c_id conv \<and> c_phone_number row = c_phone_number conv)"
proof -
  from assms have w1: "w_db w1 = touch (utcnow w) cid (w_db w)"
    by (auto simp: repo_touch_def)
  have "\<forall>conv\<in>set (conversations (w_db w)).
       \<exists>row\<in>set (conversations (touch (utcnow w) cid (w_db w))).
         c_id row = c_id conv \<and> c_phone_number row = c_phone_number conv"
  proof
    fix conv assume c: "conv \<in> set (conversations (w_db w))"
    let ?f = "\<lambda>c. if c_id c = cid then c\<lparr>c_updated_at := utcnow w\<rparr> else c"
    from c have "?f conv \<in> set (conversations (touch (utcnow w) cid (w_db w)))"
      by (simp add: touch_def)
    moreover have "c_id (?f conv) = c_id conv \<and> c_phone_number (?f conv) = c_phone_number conv"
      by simp
    ultimately show "\<exists>row\<in>set (conversations (touch (utcnow w) cid (w_db w))).
         c_id row = c_id conv \<and> c_phone_number row = c_phone_number conv"
      by blast
  qed
  with w1 show ?thesis by (simp add: touch_def)
qed

text \<open>
  C8. When \<^verbatim>\<open>process_incoming\<close> of the wired service returns true, the messages
  table has grown by exactly two rows, both in the conversation of the sender's number:
  a user message with the inbound content and status received, then an assistant message
  with the provider's reply and status pending; and the outbox has grown by exactly one
  row, pending, with no sent time, addressed to the sender's number and holding the same
  reply.
\<close>

theorem process_incoming_success_rows:
  assumes "process_incoming (get_sms_service a ai prompt mc) p c ts w = (True, logs, w')"
  shows "\<exists>(conv::conversation) reply hist.
     c_phone_number conv = p \<and>
     (\<exists>row\<in>set (conversations (w_db w')). c_id row = c_id conv \<and> c_phone_number row = p) \<and>
     ai hist prompt = Inr reply \<and>
     messages (w_db w') = messages (w_db w) @
       [\<lparr>m_id = messages_seq (w_db w) + 1, m_conversation_id = c_id conv, m_role = User,
         m_content = c, m_timestamp = w_clock w (w_operations w + 1), m_status = Received\<rparr>,
        \<lparr>m_id = messages_seq (w_db w) + 2, m_conversation_id = c_id conv, m_role = Assistant,
         m_content = reply, m_timestamp = w_clock w (w_operations w + 3),
         m_status = Pending\<rparr>] \<and>
     outbox (w_db w') = outbox (w_db w) @
       [\<lparr>o_id = outbox_seq (w_db w) + 1, o_phone_number = p, o_content = reply,
         o_created_at = w_clock w (w_operations w + 4), o_status = Pending,
         o_sent_at = None\<rparr>]"
proof -
  let ?S = "get_sms_service a ai prompt mc"
  from assms have "fst (process_incoming ?S p c ts w)" by simp
  then have t: "fst (process_incoming_try ?S p c w) = Inr True"
    by (simp add: process_incoming_True_iff)
  then obtain lg wf where tr: "process_incoming_try ?S p c w = (Inr True, lg, wf)"
    by (cases "process_incoming_try ?S p c w") auto
  from assms tr t have wf: "wf = w'"
    by (auto simp: process_incoming_def split: if_splits)
  from try_success[OF tr] obtain conv w1 m1 w2 h w3 r w4 m2 w5 i w6 u where
    s1: "repo_find_or_create p w = (Inr conv, w1)" and
    s2: "repo_create (c_id conv) User c Received w1 = (Inr m1, w2)" and
    s3: "repo_get_history (c_id conv) mc w2 = (Inr h, w3)" and
    s4: "provider_generate_response ai (map (\<lambda>msg. (m_role msg, m_content msg)) h) prompt w3
          = (Inr r, w4)" and
    s5: "repo_create (c_id conv) Assistant r Pending w4 = (Inr m2, w5)" and
    s6: "repo_enqueue p r w5 = (Inr i, w6)" and
    s7: "repo_touch (c_id conv) w6 = (Inr u, w')"
    unfolding wf by (auto simp: get_sms_service_def)
  note f1 = repo_find_or_create_facts[OF s1]
  note f2 = repo_create_facts[OF s2]
  note f3 = repo_get_history_facts[OF s3]
  note f4 = provider_facts[OF s4]
  note f5 = repo_create_facts[OF s5]
  note f6 = repo_enqueue_facts[OF s6]
  note f7 = repo_touch_facts[OF s7]
  have conv_in: "conv \<in> set (conversations (w_db w6))"
    using f1 f2 f3 f4 f5 f6 by simp
  with f7 f1 have row: "\<exists>row\<in>set (conversations (w_db w')). c_id row = c_id conv \<and> c_phone_number row = p"
    by auto
  have msgs: "messages (w_db w') = messages (w_db w) @
       [\<lparr>m_id = messages_seq (w_db w) + 1, m_conversation_id = c_id conv, m_role = User,
         m_content = c, m_timestamp = w_clock w (w_operations w + 1), m_status = Received\<rparr>,
        \<lparr>m_id = messages_seq (w_db w) + 2, m_conversation_id = c_id conv, m_role = Assistant,
         m_content = r, m_timestamp = w_clock w (w_operations w + 3),
         m_status = Pending\<rparr>]"
    using f1 f2 f3 f4 f5 f6 f7 by (simp add: numeral_eq_Suc)
  have ob: "outbox (w_db w') = outbox (w_db w) @
       [\<lparr>o_id = outbox_seq (w_db w) + 1, o_phone_number = p, o_content = r,
         o_created_at = w_clock w (w_operations w + 4), o_status = Pending,
         o_sent_at = None\<rparr>]"
    using f1 f2 f3 f4 f5 f6 f7 by (simp add: numeral_eq_Suc)
  have cp: "c_phone_number conv = p" and ai: "ai (map (\<lambda>msg. (m_role msg, m_content msg)) h) prompt = Inr r"
    using f1 f4 by simp_all
  show ?thesis
    apply (intro exI conjI)
        apply (rule cp)
       apply (rule row)
      apply (rule ai)
     apply (rule msgs)
    apply (rule ob)
    done
qed

theorem process_incoming_success_rows_witness:
  "process_incoming
     (get_sms_service (AuthService_init []) (stub_provider ''hello'') ''be brief'' 20)
     ''+15551234567'' ''hi'' None fresh_world =
   (True,
    [Info_processing ''+15551234567'' 1, Info_generating 1, Info_processed ''+15551234567''],
    \<lparr>w_db = \<lparr>conversations = [\<lparr>c_id = 1, c_phone_number = ''+15551234567'',
                                  c_created_at = 100, c_updated_at = 105\<rparr>],
             conversations_seq = 1,
             messages = [\<lparr>m_id = 1, m_conversation_id = 1, m_role = User, m_content = ''hi'',
                          m_timestamp = 101, m_status = Received\<rparr>,
                         \<lparr>m_id = 2, m_conversation_id = 1, m_role = Assistant,
                          m_content = ''hello'', m_timestamp = 103, m_status = Pending\<rparr>],
             messages_seq = 2,
             outbox = [\<lparr>o_id = 1, o_phone_number = ''+15551234567'', o_content = ''hello'',
                        o_created_at = 104, o_status = Pending, o_sent_at = None\<rparr>],
             outbox_seq = 1\<rparr>,
      w_clock = (\<lambda>n. 100 + n), w_operations = 6,
      w_requests = [([(User, ''hi'')], ''be brief'')]\<rparr>)"
  using process_incoming_success_rows
    [of "AuthService_init []" "stub_provider ''hello''" "''be brief''" 20 "''+15551234567''"
        "''hi''" None fresh_world]
  by (simp add: process_incoming_def process_incoming_try_def get_sms_service_def
      repo_find_or_create_def repo_create_def repo_get_history_def repo_enqueue_def
      repo_touch_def provider_generate_response_def find_or_create_def find_by_phone_def
      insert_conversation_def create_def get_history_def int64_def sql_limit_def
      order_by_timestamp_desc_def conversation_messages_def enqueue_def touch_def utcnow_def
      fresh_world_def empty_db_def stub_provider_def is_authorized_def AuthService_init_def
      Let_def)

section \<open>Properties of the inbound route\<close>

text \<open>
  C7 (as amended). The handler of \<^verbatim>\<open>POST /api/sms/incoming\<close> always answers 200
  with a body \<^verbatim>\<open>{ok: bool}\<close>. \<open>ok\<close> is false exactly when an API key is configured
  and the key sent with the request differs from it. Otherwise \<open>ok\<close> is true whatever
  \<^verbatim>\<open>process_incoming\<close> returns; for a sender that is not authorised the answer is
  \<^verbatim>\<open>{ok: true}\<close> and nothing is written.
\<close>

theorem receive_sms_response:
  "status_code (fst (receive_sms cfg svc req key w)) = 200 \<and>
   ok (fst (receive_sms cfg svc req key w)) =
     (\<not> (truthy (sms_api_key cfg) \<and> key \<noteq> sms_api_key cfg)) \<and>
   (\<not> (truthy (sms_api_key cfg) \<and> key \<noteq> sms_api_key cfg) \<and>
    \<not> is_authorized (auth svc) (req_from_number req) \<longrightarrow>
      receive_sms cfg svc req key w = (OkResponse True, w))"
  by (auto simp: receive_sms_def OkResponse_def process_incoming_def split: prod.splits)

theorem receive_sms_response_witness:
  "receive_sms \<lparr>sms_api_key = Some ''secret''\<rparr>
     (get_sms_service (AuthService_init []) (stub_provider ''hello'') ''be brief'' 20)
     \<lparr>req_from_number = ''+15551234567'', req_to = None, req_content = ''hi'',
      req_timestamp = None, req_id = None\<rparr>
     (Some ''wrong'') fresh_world = (\<lparr>status_code = 200, ok = False\<rparr>, fresh_world) \<and>
   \<not> is_authorized (AuthService_init [''+15559999999'']) ''+15551111111'' \<and>
   receive_sms \<lparr>sms_api_key = Some ''secret''\<rparr>
     (get_sms_service (AuthService_init [''+15559999999'']) (stub_provider ''hello'')
        ''be brief'' 20)
     \<lparr>req_from_number = ''+15551111111'', req_to = None, req_content = ''hi'',
      req_timestamp = None, req_id = None\<rparr>
     (Some ''secret'') fresh_world = (\<lparr>status_code = 200, ok = True\<rparr>, fresh_world)"
  using receive_sms_response
    [of "\<lparr>sms_api_key = Some ''secret''\<rparr>"
        "get_sms_service (AuthService_init [''+15559999999'']) (stub_provider ''hello'')
           ''be brief'' 20"
        "\<lparr>req_from_number = ''+15551111111'', req_to = None, req_content = ''hi'',
          req_timestamp = None, req_id = None\<rparr>"
        "Some ''secret''" fresh_world]
  by (simp add: receive_sms_def OkResponse_def truthy_def process_incoming_def
      get_sms_service_def is_authorized_def AuthService_init_def normalize_phone_def
      strip_def startswith_def sub_non_digits_def is_digit_def is_space_def)

text \<open>
  An allowlisted system, with no API key configured, receiving a message from a number
  that is not on the list: the sender is not authorised, and the answer is
  \<^verbatim>\<open>{ok: true}\<close>.
\<close>

theorem receive_sms_unauthorized_ok_true:
  "\<not> is_authorized (AuthService_init [''+15559999999'']) ''+15551111111'' \<and>
   receive_sms \<lparr>sms_api_key = None\<rparr>
     (get_sms_service (AuthService_init [''+15559999999'']) (stub_provider ''hello'')
        ''be brief'' 20)
     \<lparr>req_from_number = ''+15551111111'', req_to = None, req_content = ''hi'',
      req_timestamp = None, req_id = None\<rparr>
     None fresh_world = (\<lparr>status_code = 200, ok = True\<rparr>, fresh_world)"
  by (simp add: receive_sms_def OkResponse_def truthy_def process_incoming_def
      get_sms_service_def is_authorized_def AuthService_init_def normalize_phone_def
      strip_def startswith_def sub_non_digits_def is_digit_def is_space_def)

end
